theory Spec2Isabelle
  imports Main "HOL-Library.Word" "HOL-Library.Sublist"
begin

section \<open>Python values and their renderings\<close>

text \<open>
  The client in \<^verbatim>\<open>testrail_client.py\<close> builds strings: URLs, a query block, an
  Authorization header and an error message. A Python \<^verbatim>\<open>str\<close> is modelled as a HOL
  \<^typ>\<open>string\<close> whose characters are the code points 0..255, a Python \<^verbatim>\<open>bytes\<close> as a
  list of 8-bit words. The values that travel in request bodies, query parameters
  and decoded responses are \<^verbatim>\<open>None\<close>, booleans, integers, strings, lists and
  dictionaries; a dictionary is an association list in insertion order, as Python keeps
  it. Floating point numbers are left out.
\<close>

type_synonym byte = "8 word"
type_synonym bytes = "byte list"

datatype pyval =
    PNone
  | PBool bool
  | PInt int
  | PStr string
  | PList "pyval list"
  | PDict "(string \<times> pyval) list"

type_synonym dict = "(string \<times> pyval) list"

text \<open>Truth value of an \<^verbatim>\<open>Optional[Dict]\<close>: \<^verbatim>\<open>None\<close> and the empty dictionary are false.\<close>

definition truthy :: "dict option \<Rightarrow> bool" where
  "truthy d = (case d of None \<Rightarrow> False | Some kvs \<Rightarrow> kvs \<noteq> [])"

text \<open>\<^verbatim>\<open>d[k] = v\<close>: an existing key keeps its position, a new key goes last.\<close>

fun dict_set :: "dict \<Rightarrow> string \<Rightarrow> pyval \<Rightarrow> dict" where
  "dict_set [] k v = [(k, v)]"
| "dict_set ((k', v') # kvs) k v =
     (if k' = k then (k, v) # kvs else (k', v') # dict_set kvs k v)"

text \<open>\<^verbatim>\<open>d.get(k)\<close>.\<close>

definition dict_get :: "dict \<Rightarrow> string \<Rightarrow> pyval option" where
  "dict_get d k = map_of d k"

subsection \<open>Substring test, join, strip, upper\<close>

text \<open>\<^verbatim>\<open>needle in hay\<close> on strings.\<close>

fun contains :: "string \<Rightarrow> string \<Rightarrow> bool" where
  "contains needle [] = (needle = [])"
| "contains needle (c # cs) = (prefix needle (c # cs) \<or> contains needle cs)"

definition endswith :: "string \<Rightarrow> string \<Rightarrow> bool" where
  "endswith s t = suffix t s"

fun join :: "string \<Rightarrow> string list \<Rightarrow> string" where
  "join sep [] = []"
| "join sep [x] = x"
| "join sep (x # y # ys) = x @ sep @ join sep (y # ys)"

text \<open>
  \<^verbatim>\<open>str.upper\<close> on the ASCII letters. Characters beyond ASCII are left as they are:
  in the range modelled their upper-case forms are again beyond ASCII or the pair
  \<^verbatim>\<open>SS\<close>, so no comparison with \<^verbatim>\<open>GET\<close>, \<^verbatim>\<open>POST\<close>, \<^verbatim>\<open>PUT\<close> or \<^verbatim>\<open>DELETE\<close> changes.
\<close>

definition upper_char :: "char \<Rightarrow> char" where
  "upper_char c =
     (let n = of_char c :: nat in if 97 \<le> n \<and> n \<le> 122 then char_of (n - 32) else c)"

definition upper :: "string \<Rightarrow> string" where
  "upper s = map upper_char s"

text \<open>\<^verbatim>\<open>str.isspace\<close> of one character, and \<^verbatim>\<open>str.strip()\<close>.\<close>

definition isspace :: "char \<Rightarrow> bool" where
  "isspace c =
     (let n = of_char c :: nat
      in (9 \<le> n \<and> n \<le> 13) \<or> (28 \<le> n \<and> n \<le> 32) \<or> n = 133 \<or> n = 160)"

definition strip :: "string \<Rightarrow> string" where
  "strip s = rev (dropWhile isspace (rev (dropWhile isspace s)))"

subsection \<open>Numbers as text\<close>

definition digit_char :: "nat \<Rightarrow> char" where
  "digit_char d = ''0123456789'' ! d"

fun str_nat :: "nat \<Rightarrow> string" where
  "str_nat n = (if n < 10 then [digit_char n] else str_nat (n div 10) @ [digit_char (n mod 10)])"

declare str_nat.simps [simp del]

text \<open>\<^verbatim>\<open>str(i)\<close> for an integer.\<close>

definition str_int :: "int \<Rightarrow> string" where
  "str_int i = (if i < 0 then CHR ''-'' # str_nat (nat (- i)) else str_nat (nat i))"

definition hex_lower :: "nat \<Rightarrow> char" where
  "hex_lower d = ''0123456789abcdef'' ! d"

definition hex_upper :: "nat \<Rightarrow> char" where
  "hex_upper d = ''0123456789ABCDEF'' ! d"

subsection \<open>\<^verbatim>\<open>repr\<close> and \<^verbatim>\<open>str\<close>\<close>

definition backslash :: char where
  "backslash = CHR 0x5C"

definition squote :: char where
  "squote = CHR 0x27"

definition dquote :: char where
  "dquote = CHR 0x22"

text \<open>
  \<^verbatim>\<open>repr\<close> of a string: the delimiter is the single quote unless the string holds a
  single quote and no double quote; the delimiter and the backslash are escaped,
  tab, newline and carriage return have their short forms, the other characters that
  are not printable are written \<^verbatim>\<open>\xNN\<close>.
\<close>

definition printable :: "char \<Rightarrow> bool" where
  "printable c =
     (let n = of_char c :: nat in (32 \<le> n \<and> n < 127) \<or> (161 \<le> n \<and> n \<noteq> 173))"

definition repr_char :: "char \<Rightarrow> char \<Rightarrow> string" where
  "repr_char q c =
     (if c = q \<or> c = backslash then [backslash, c]
      else if c = CHR 0x09 then [backslash, CHR ''t'']
      else if c = CHR 0x0A then [backslash, CHR ''n'']
      else if c = CHR 0x0D then [backslash, CHR ''r'']
      else if printable c then [c]
      else [backslash, CHR ''x'', hex_lower (of_char c div 16), hex_lower (of_char c mod 16)])"

definition repr_str :: "string \<Rightarrow> string" where
  "repr_str s =
     (let q = (if squote \<in> set s \<and> dquote \<notin> set s then dquote else squote)
      in q # concat (map (repr_char q) s) @ [q])"

fun py_repr :: "pyval \<Rightarrow> string" where
  "py_repr PNone = ''None''"
| "py_repr (PBool b) = (if b then ''True'' else ''False'')"
| "py_repr (PInt i) = str_int i"
| "py_repr (PStr s) = repr_str s"
| "py_repr (PList xs) = ''['' @ join '', '' (map py_repr xs) @ '']''"
| "py_repr (PDict kvs) =
     ''{'' @ join '', '' (map (\<lambda>kv. repr_str (fst kv) @ '': '' @ py_repr (snd kv)) kvs) @ ''}''"

text \<open>\<^verbatim>\<open>str(v)\<close>, which an f-string applies: a string is itself, anything else its \<^verbatim>\<open>repr\<close>.\<close>

definition py_str :: "pyval \<Rightarrow> string" where
  "py_str v = (case v of PStr s \<Rightarrow> s | _ \<Rightarrow> py_repr v)"

subsection \<open>UTF-8, Base64 and the ASCII codec\<close>

text \<open>\<^verbatim>\<open>bytes(s, 'utf-8')\<close>: one byte below 128, two bytes from 128 to 255.\<close>

definition utf8_char :: "char \<Rightarrow> bytes" where
  "utf8_char c =
     (let n = of_char c :: nat
      in if n < 128 then [of_nat n] else [of_nat (192 + n div 64), of_nat (128 + n mod 64)])"

definition utf8_encode :: "string \<Rightarrow> bytes" where
  "utf8_encode s = concat (map utf8_char s)"

text \<open>
  \<^verbatim>\<open>bytes.decode('utf-8')\<close> for the strings of the model: a lead byte 0xC2 or 0xC3
  with one continuation byte gives a code point from 128 to 255; any other sequence
  beyond ASCII has no string of the model and gives \<open>None\<close>.
\<close>

fun utf8_decode :: "bytes \<Rightarrow> string option" where
  "utf8_decode [] = Some []"
| "utf8_decode [a] = (if a < 128 then Some [char_of (unat a)] else None)"
| "utf8_decode (a # b # bs) =
     (if a < 128 then map_option (Cons (char_of (unat a))) (utf8_decode (b # bs))
      else if (a = 194 \<or> a = 195) \<and> 128 \<le> b \<and> b < 192
      then map_option (Cons (char_of ((unat a - 192) * 64 + (unat b - 128)))) (utf8_decode bs)
      else None)"

definition b64_alphabet :: string where
  "b64_alphabet = ''ABCDEFGHIJKLMNOPQRSTUVWXYZabcdefghijklmnopqrstuvwxyz0123456789+/''"

definition b64_char :: "nat \<Rightarrow> byte" where
  "b64_char i = of_char (b64_alphabet ! i)"

definition b64_pad :: byte where
  "b64_pad = 61"

text \<open>\<^verbatim>\<open>base64.b64encode\<close>: three bytes give four characters, the last group is padded.\<close>

fun b64encode :: "bytes \<Rightarrow> bytes" where
  "b64encode [] = []"
| "b64encode [a] =
     (let x = unat a in [b64_char (x div 4), b64_char ((x mod 4) * 16), b64_pad, b64_pad])"
| "b64encode [a, b] =
     (let x = unat a; y = unat b
      in [b64_char (x div 4), b64_char ((x mod 4) * 16 + y div 16),
          b64_char ((y mod 16) * 4), b64_pad])"
| "b64encode (a # b # c # rest) =
     (let x = unat a; y = unat b; z = unat c
      in [b64_char (x div 4), b64_char ((x mod 4) * 16 + y div 16),
          b64_char ((y mod 16) * 4 + z div 64), b64_char (z mod 64)] @ b64encode rest)"

definition b64_index :: "byte \<Rightarrow> nat option" where
  "b64_index w = map_of (zip (map of_char b64_alphabet) [0..<64]) w"

text \<open>
  \<^verbatim>\<open>base64.b64decode\<close> on groups of four characters of the alphabet, with padding in
  the last group only; \<open>None\<close> stands for \<^verbatim>\<open>binascii.Error\<close>.
\<close>

fun b64decode :: "bytes \<Rightarrow> bytes option" where
  "b64decode [] = Some []"
| "b64decode (p # q # r # s # rest) =
     (case (b64_index p, b64_index q) of
        (Some i, Some j) \<Rightarrow>
          if rest = [] \<and> r = b64_pad \<and> s = b64_pad
          then Some [of_nat (i * 4 + j div 16)]
          else (case b64_index r of
                  None \<Rightarrow> None
                | Some k \<Rightarrow>
                    if rest = [] \<and> s = b64_pad
                    then Some [of_nat (i * 4 + j div 16), of_nat ((j mod 16) * 16 + k div 4)]
                    else (case b64_index s of
                            None \<Rightarrow> None
                          | Some l \<Rightarrow>
                              map_option
                                (append [of_nat (i * 4 + j div 16),
                                         of_nat ((j mod 16) * 16 + k div 4),
                                         of_nat ((k mod 4) * 64 + l)])
                                (b64decode rest)))
      | _ \<Rightarrow> None)"
| "b64decode _ = None"

subsection \<open>\<^verbatim>\<open>urllib.parse.urlencode\<close> and \<^verbatim>\<open>json.dumps\<close>\<close>

text \<open>
  \<^verbatim>\<open>quote_plus\<close>: the UTF-8 bytes of the string, the unreserved ones kept, the space
  as \<^verbatim>\<open>+\<close>, every other byte as \<^verbatim>\<open>%XX\<close>.
\<close>

definition always_safe :: "nat \<Rightarrow> bool" where
  "always_safe n =
     ((65 \<le> n \<and> n \<le> 90) \<or> (97 \<le> n \<and> n \<le> 122) \<or> (48 \<le> n \<and> n \<le> 57)
      \<or> n = 95 \<or> n = 46 \<or> n = 45 \<or> n = 126)"

definition quote_byte :: "byte \<Rightarrow> string" where
  "quote_byte b =
     (let n = unat b
      in if always_safe n then [char_of n]
         else if n = 32 then ''+''
         else [CHR ''%'', hex_upper (n div 16), hex_upper (n mod 16)])"

definition quote_plus :: "string \<Rightarrow> string" where
  "quote_plus s = concat (map quote_byte (utf8_encode s))"

text \<open>\<^verbatim>\<open>urlencode(d)\<close>: \<^verbatim>\<open>quote_plus(str(k)) + '=' + quote_plus(str(v))\<close>, joined by \<^verbatim>\<open>&\<close>.\<close>

definition urlencode :: "dict \<Rightarrow> string" where
  "urlencode d = join ''&'' (map (\<lambda>kv. quote_plus (fst kv) @ ''='' @ quote_plus (py_str (snd kv))) d)"

text \<open>\<^verbatim>\<open>json.dumps\<close> with its defaults (\<^verbatim>\<open>ensure_ascii\<close>, separators \<^verbatim>\<open>', '\<close> and \<^verbatim>\<open>': '\<close>).\<close>

definition json_escape :: "char \<Rightarrow> string" where
  "json_escape c =
     (let n = of_char c :: nat
      in if c = dquote \<or> c = backslash then [backslash, c]
         else if n = 10 then [backslash, CHR ''n'']
         else if n = 13 then [backslash, CHR ''r'']
         else if n = 9 then [backslash, CHR ''t'']
         else if n = 8 then [backslash, CHR ''b'']
         else if n = 12 then [backslash, CHR ''f'']
         else if 32 \<le> n \<and> n \<le> 126 then [c]
         else [backslash, CHR ''u'', CHR ''0'', CHR ''0'', hex_lower (n div 16), hex_lower (n mod 16)])"

definition json_str :: "string \<Rightarrow> string" where
  "json_str s = dquote # concat (map json_escape s) @ [dquote]"

fun json_dumps :: "pyval \<Rightarrow> string" where
  "json_dumps PNone = ''null''"
| "json_dumps (PBool b) = (if b then ''true'' else ''false'')"
| "json_dumps (PInt i) = str_int i"
| "json_dumps (PStr s) = json_str s"
| "json_dumps (PList xs) = ''['' @ join '', '' (map json_dumps xs) @ '']''"
| "json_dumps (PDict kvs) =
     ''{'' @ join '', '' (map (\<lambda>kv. json_str (fst kv) @ '': '' @ json_dumps (snd kv)) kvs) @ ''}''"

section \<open>The client\<close>

text \<open>
  What the code can raise: \<^verbatim>\<open>ValueError\<close> for a method it does not support, the
  generic \<^verbatim>\<open>Exception\<close> for a response with status 300 or more, the decode error of
  \<^verbatim>\<open>response.json()\<close>, the error of the HTTP library when no response arrives, and
  the error of the \<^verbatim>\<open>ascii\<close> codec.
\<close>

datatype py_error =
    ValueError string
  | Exception string
  | JSONDecodeError
  | RequestException
  | UnicodeDecodeError

record client =
  username :: string
  api_key :: string
  base_url :: string
  headers :: "(string \<times> string) list"

text \<open>\<^verbatim>\<open>str(b, 'ascii')\<close> raises on a byte of 128 or more.\<close>

definition ascii_str :: "bytes \<Rightarrow> py_error + string" where
  "ascii_str bs =
     (if list_all (\<lambda>b. b < 128) bs then Inr (map (\<lambda>b. char_of (unat b)) bs)
      else Inl UnicodeDecodeError)"

definition api_prefix :: string where
  "api_prefix = ''index.php?/api/v2/''"

text \<open>
  \<^verbatim>\<open>TestRailClient.__init__\<close>. The field \<open>headers\<close> holds the two entries the
  constructor sets on the session.
\<close>

definition TestRailClient_init :: "string \<Rightarrow> string \<Rightarrow> string \<Rightarrow> py_error + client" where
  "TestRailClient_init base_url0 username0 api_key0 =
     (let base_url1 = (if \<not> endswith base_url0 ''/'' then base_url0 @ ''/'' else base_url0)
      in case ascii_str (b64encode (utf8_encode (username0 @ '':'' @ api_key0))) of
           Inl e \<Rightarrow> Inl e
         | Inr a \<Rightarrow>
             Inr \<lparr>username = username0, api_key = api_key0,
                  base_url = base_url1 @ api_prefix,
                  headers = [(''Authorization'', ''Basic '' @ strip a),
                             (''Content-Type'', ''application/json'')]\<rparr>)"

subsection \<open>Requests and responses\<close>

datatype verb = GET | POST | PUT | DELETE

record request =
  verb :: verb
  url :: string
  body :: "string option"

text \<open>
  A response as the code reads it: \<^verbatim>\<open>status_code\<close>, \<^verbatim>\<open>content\<close>, \<^verbatim>\<open>text\<close> and the
  outcome of \<^verbatim>\<open>json()\<close>, \<open>None\<close> when it raises.
\<close>

record response =
  status_code :: int
  content :: bytes
  text_of :: string
  json :: "pyval option"

text \<open>
  The session and the server behind it: what a request is answered with, a response or
  an error of the HTTP library.
\<close>

type_synonym session = "request \<Rightarrow> py_error + response"

subsection \<open>\<^verbatim>\<open>_send_request\<close>\<close>

text \<open>Lines 57 to 67: the URL, with the query block of a GET.\<close>

definition request_url :: "client \<Rightarrow> string \<Rightarrow> string \<Rightarrow> dict option \<Rightarrow> string" where
  "request_url c method uri params =
     (let url0 = base_url c @ uri
      in case params of
           None \<Rightarrow> url0
         | Some ps \<Rightarrow>
             if ps \<noteq> [] \<and> upper method = ''GET'' then
               (let filtered_params = filter (\<lambda>kv. snd kv \<noteq> PNone) ps
                in if filtered_params \<noteq> [] then
                     (let query_string = urlencode filtered_params;
                          separator = (if CHR ''?'' \<in> set url0 then ''&'' else ''?'')
                      in url0 @ separator @ query_string)
                   else url0)
             else url0)"

text \<open>Lines 69 to 78: the call made on the session, or the \<^verbatim>\<open>ValueError\<close>.\<close>

definition session_call :: "string \<Rightarrow> string \<Rightarrow> dict option \<Rightarrow> py_error + request" where
  "session_call method url0 data =
     (if upper method = ''GET'' then Inr \<lparr>verb = GET, url = url0, body = None\<rparr>
      else if upper method = ''POST'' then
        Inr \<lparr>verb = POST, url = url0,
             body = (case data of
                       None \<Rightarrow> None
                     | Some d \<Rightarrow> if d \<noteq> [] then Some (json_dumps (PDict d)) else None)\<rparr>
      else if upper method = ''PUT'' then
        Inr \<lparr>verb = PUT, url = url0,
             body = (case data of
                       None \<Rightarrow> None
                     | Some d \<Rightarrow> if d \<noteq> [] then Some (json_dumps (PDict d)) else None)\<rparr>
      else if upper method = ''DELETE'' then Inr \<lparr>verb = DELETE, url = url0, body = None\<rparr>
      else Inl (ValueError (''Unsupported HTTP method: '' @ method)))"

text \<open>Lines 80 to 90: the error for a status of 300 or more, else the decoded body.\<close>

definition error_message :: "string \<Rightarrow> dict option \<Rightarrow> response \<Rightarrow> string" where
  "error_message url0 params resp =
     (let error = (case json resp of Some j \<Rightarrow> py_str j | None \<Rightarrow> text_of resp);
          debug_info = '' [URL: '' @ url0 @ '']'';
          debug_info' = (if truthy params
                         then debug_info @ '' [Original params: ''
                                @ py_repr (PDict (case params of Some ps \<Rightarrow> ps | None \<Rightarrow> [])) @ '']''
                         else debug_info)
      in ''TestRail API returned HTTP '' @ str_int (status_code resp) @ '': '' @ error @ debug_info')"

definition read_response :: "string \<Rightarrow> dict option \<Rightarrow> response \<Rightarrow> py_error + pyval" where
  "read_response url0 params resp =
     (if status_code resp \<ge> 300 then Inl (Exception (error_message url0 params resp))
      else if content resp \<noteq> [] then
        (case json resp of Some j \<Rightarrow> Inr j | None \<Rightarrow> Inl JSONDecodeError)
      else Inr (PDict []))"

text \<open>
  The dispatcher. The result is what the call returns or raises, together with the
  requests that went out on the session.
\<close>

definition send_request ::
  "session \<Rightarrow> client \<Rightarrow> string \<Rightarrow> string \<Rightarrow> dict option \<Rightarrow> dict option
     \<Rightarrow> (py_error + pyval) \<times> request list" where
  "send_request session c method uri data params =
     (let url0 = request_url c method uri params
      in case session_call method url0 data of
           Inl e \<Rightarrow> (Inl e, [])
         | Inr req \<Rightarrow>
             (case session req of
                Inl e \<Rightarrow> (Inl e, [req])
              | Inr resp \<Rightarrow> (read_response url0 params resp, [req])))"

subsection \<open>Endpoint wrappers\<close>

definition get_cases ::
  "session \<Rightarrow> client \<Rightarrow> int \<Rightarrow> int option \<Rightarrow> (py_error + pyval) \<times> request list" where
  "get_cases session c project_id suite_id =
     (let params = (case suite_id of
                      None \<Rightarrow> []
                    | Some s \<Rightarrow> dict_set [] ''suite_id'' (PInt s))
      in send_request session c ''GET'' (''get_cases/'' @ str_int project_id) None (Some params))"

text \<open>The mapping \<^verbatim>\<open>get_sections\<close> passes on as \<^verbatim>\<open>params\<close> (lines 208 to 210).\<close>

definition get_sections_query :: "int option \<Rightarrow> dict option \<Rightarrow> dict" where
  "get_sections_query suite_id params =
     (let query_params = (if truthy params then (case params of Some ps \<Rightarrow> ps | None \<Rightarrow> []) else [])
      in case suite_id of
           None \<Rightarrow> query_params
         | Some s \<Rightarrow> dict_set query_params ''suite_id'' (PInt s))"

definition get_sections ::
  "session \<Rightarrow> client \<Rightarrow> int \<Rightarrow> int option \<Rightarrow> dict option
     \<Rightarrow> (py_error + pyval) \<times> request list" where
  "get_sections session c project_id suite_id params =
     send_request session c ''GET'' (''get_sections/'' @ str_int project_id) None
       (Some (get_sections_query suite_id params))"

definition delete_section ::
  "session \<Rightarrow> client \<Rightarrow> int \<Rightarrow> bool \<Rightarrow> (py_error + pyval) \<times> request list" where
  "delete_section session c section_id soft =
     (let url0 = (if soft then ''delete_section/'' @ str_int section_id @ ''?soft=1''
                  else ''delete_section/'' @ str_int section_id)
      in send_request session c ''POST'' url0 None None)"

subsection \<open>Auxiliary notions for the statements\<close>

text \<open>A byte that the \<^verbatim>\<open>ascii\<close> codec accepts and \<^verbatim>\<open>strip\<close> leaves alone.\<close>

definition b64_text :: "byte \<Rightarrow> bool" where
  "b64_text b \<longleftrightarrow> b < 128 \<and> \<not> isspace (char_of (unat b))"

text \<open>The bytes of a string of ASCII characters, as \<^verbatim>\<open>b64decode\<close> takes its argument.\<close>

definition ascii_bytes :: "string \<Rightarrow> bytes" where
  "ascii_bytes s = map (\<lambda>c. of_nat (of_char c)) s"

text \<open>The number of \<^verbatim>\<open>/\<close> at the end of a string.\<close>

definition trailing_slashes :: "string \<Rightarrow> nat" where
  "trailing_slashes s = length (takeWhile (\<lambda>c. c = CHR ''/'') (rev s))"

section \<open>Basic facts\<close>

lemma contains_self_append: "contains n (n @ b)"
proof (cases "n @ b")
  case Nil
  then show ?thesis by simp
next
  case (Cons c cs)
  have "prefix n (n @ b)" by simp
  with Cons show ?thesis by simp
qed

lemma contains_append: "contains n (a @ n @ b)"
  by (induction a) (auto simp: contains_self_append)

lemma contains_sublist: "contains n h = sublist n h"
  by (induction h) (auto simp: sublist_Cons_right)

lemma send_request_requests:
  "snd (send_request session c method uri data params) =
     (case session_call method (request_url c method uri params) data of
        Inl e \<Rightarrow> [] | Inr req \<Rightarrow> [req])"
  by (simp add: send_request_def Let_def split: sum.splits)

lemma upper_GET: "upper ''GET'' = ''GET''"
  by code_simp

lemma send_request_GET:
  "upper method = ''GET'' \<Longrightarrow>
   snd (send_request session c method uri data params) =
     [\<lparr>verb = GET, url = request_url c method uri params, body = None\<rparr>]"
  by (simp add: send_request_requests session_call_def)

section \<open>Encodings\<close>

lemma b64_distinct: "distinct (map of_char b64_alphabet :: byte list)"
  unfolding b64_alphabet_def by simp

lemma b64_index_char:
  assumes "i < 64"
  shows "b64_index (b64_char i) = Some i"
proof -
  have l: "length (map of_char b64_alphabet :: byte list) = length [0..<64]"
    by (simp add: b64_alphabet_def)
  have "map_of (zip (map of_char b64_alphabet :: byte list) [0..<64]) (map of_char b64_alphabet ! i)
          = Some ([0..<64] ! i)"
    using l b64_distinct assms by (intro map_of_zip_nth) simp_all
  moreover have "length b64_alphabet = 64"
    by (simp add: b64_alphabet_def)
  then have "(map of_char b64_alphabet :: byte list) ! i = b64_char i"
    using assms by (simp only: nth_map b64_char_def)
  ultimately show ?thesis
    using assms by (simp add: b64_index_def)
qed

lemma b64_table:
  "list_all (\<lambda>i. b64_char i < 128 \<and> b64_char i \<noteq> b64_pad
                 \<and> \<not> isspace (char_of (unat (b64_char i)))) [0..<64]"
  by code_simp

lemma b64_char_facts:
  assumes "i < 64"
  shows "b64_char i < 128" and "b64_char i \<noteq> b64_pad"
    and "\<not> isspace (char_of (unat (b64_char i)))"
proof -
  have "i \<in> set [0..<64]" using assms by simp
  with b64_table have
    "b64_char i < 128 \<and> b64_char i \<noteq> b64_pad \<and> \<not> isspace (char_of (unat (b64_char i)))"
    unfolding list_all_iff by blast
  then show "b64_char i < 128" and "b64_char i \<noteq> b64_pad"
    and "\<not> isspace (char_of (unat (b64_char i)))"
    by simp_all
qed

lemma b64_pad_facts: "b64_pad < 128" "\<not> isspace (char_of (unat b64_pad))"
  by code_simp+

lemma byte_bound: "unat (a :: byte) < 256"
  using unsigned_less [of a] by simp

lemma sextets:
  fixes x y z :: nat
  assumes "x < 256" "y < 256" "z < 256"
  shows "x div 4 < 64" "(x mod 4) * 16 < 64" "(x mod 4) * 16 + y div 16 < 64"
    "(y mod 16) * 4 < 64" "(y mod 16) * 4 + z div 64 < 64" "z mod 64 < 64"
  using assms by auto

lemma b64_text_char: "i < 64 \<Longrightarrow> b64_text (b64_char i)"
  by (simp add: b64_text_def b64_char_facts)

lemma b64_text_pad: "b64_text b64_pad"
  by (simp add: b64_text_def b64_pad_facts)

lemma b64encode_text: "list_all b64_text (b64encode bs)"
proof (induction bs rule: b64encode.induct)
  case 1
  show ?case by simp
next
  case (2 a)
  show ?case
    using sextets [OF byte_bound [of a] byte_bound [of a] byte_bound [of a]]
    by (simp add: Let_def b64_text_char b64_text_pad)
next
  case (3 a b)
  show ?case
    using sextets [OF byte_bound [of a] byte_bound [of b] byte_bound [of b]]
    by (simp add: Let_def b64_text_char b64_text_pad)
next
  case (4 a b c rest)
  then show ?case
    using sextets [OF byte_bound [of a] byte_bound [of b] byte_bound [of c]]
    by (simp add: Let_def b64_text_char)
qed

lemma strip_id:
  assumes "list_all (\<lambda>c. \<not> isspace c) s"
  shows "strip s = s"
proof -
  have d: "dropWhile isspace t = t" if "list_all (\<lambda>c. \<not> isspace c) t" for t
    using that by (cases t) simp_all
  have "list_all (\<lambda>c. \<not> isspace c) (rev s)"
    using assms by (simp add: list_all_iff)
  with assms show ?thesis
    by (simp add: strip_def d)
qed

lemma ascii_str_b64encode:
  "ascii_str (b64encode bs) = Inr (map (\<lambda>b. char_of (unat b)) (b64encode bs))"
  using b64encode_text [of bs]
  by (simp add: ascii_str_def list_all_iff b64_text_def)

lemma strip_b64encode:
  "strip (map (\<lambda>b. char_of (unat b)) (b64encode bs)) = map (\<lambda>b. char_of (unat b)) (b64encode bs)"
  using b64encode_text [of bs]
  by (intro strip_id) (simp add: list_all_iff b64_text_def)

lemma TestRailClient_init_returns:
  "TestRailClient_init b u k =
     Inr \<lparr>username = u, api_key = k,
          base_url = (if endswith b ''/'' then b else b @ ''/'') @ api_prefix,
          headers = [(''Authorization'',
                      ''Basic '' @ map (\<lambda>w. char_of (unat w)) (b64encode (utf8_encode (u @ '':'' @ k)))),
                     (''Content-Type'', ''application/json'')]\<rparr>"
  by (simp add: TestRailClient_init_def ascii_str_b64encode strip_b64encode Let_def)

lemma regroup:
  fixes x y z :: nat
  assumes "y < 256" "z < 256"
  shows "(x div 4) * 4 + ((x mod 4) * 16 + y div 16) div 16 = x"
    and "(((x mod 4) * 16 + y div 16) mod 16) * 16 + ((y mod 16) * 4 + z div 64) div 4 = y"
    and "(((y mod 16) * 4 + z div 64) mod 4) * 64 + z mod 64 = z"
    and "(x div 4) * 4 + ((x mod 4) * 16) div 16 = x"
    and "(((x mod 4) * 16 + y div 16) mod 16) * 16 + ((y mod 16) * 4) div 4 = y"
proof -
  have a: "y div 16 < 16" using assms by simp
  have b: "z div 64 < 4" using assms by simp
  have j: "((x mod 4) * 16 + y div 16) div 16 = x mod 4"
    using a by simp
  have j': "((x mod 4) * 16 + y div 16) mod 16 = y div 16"
    using a by simp
  have k: "((y mod 16) * 4 + z div 64) div 4 = y mod 16"
    using b by simp
  have k': "((y mod 16) * 4 + z div 64) mod 4 = z div 64"
    using b by simp
  show "(x div 4) * 4 + ((x mod 4) * 16 + y div 16) div 16 = x"
    unfolding j by simp
  show "(((x mod 4) * 16 + y div 16) mod 16) * 16 + ((y mod 16) * 4 + z div 64) div 4 = y"
    unfolding j' k by simp
  show "(((y mod 16) * 4 + z div 64) mod 4) * 64 + z mod 64 = z"
    unfolding k' by simp
  show "(x div 4) * 4 + ((x mod 4) * 16) div 16 = x"
    by simp
  show "(((x mod 4) * 16 + y div 16) mod 16) * 16 + ((y mod 16) * 4) div 4 = y"
    unfolding j' by simp
qed


lemma of_nat_unat_byte: "n = unat (a :: byte) \<Longrightarrow> of_nat n = a"
  by simp

lemma b64decode_group:
  assumes "i < 64" "j < 64" "k < 64" "l < 64"
  shows "b64decode (b64_char i # b64_char j # b64_char k # b64_char l # rest) =
           map_option (append [of_nat (i * 4 + j div 16), of_nat ((j mod 16) * 16 + k div 4),
                               of_nat ((k mod 4) * 64 + l)]) (b64decode rest)"
  using assms by (simp add: b64_index_char b64_char_facts(2) del: of_nat_add of_nat_mult)

lemma b64decode_group2:
  assumes "i < 64" "j < 64" "k < 64"
  shows "b64decode [b64_char i, b64_char j, b64_char k, b64_pad] =
           Some [of_nat (i * 4 + j div 16), of_nat ((j mod 16) * 16 + k div 4)]"
  using assms by (simp add: b64_index_char b64_char_facts(2) del: of_nat_add of_nat_mult)

lemma b64decode_group1:
  assumes "i < 64" "j < 64"
  shows "b64decode [b64_char i, b64_char j, b64_pad, b64_pad] = Some [of_nat (i * 4 + j div 16)]"
  using assms by (simp add: b64_index_char del: of_nat_add of_nat_mult)

lemma b64decode_b64encode: "b64decode (b64encode bs) = Some bs"
proof (induction bs rule: b64encode.induct)
  case 1
  show ?case by simp
next
  case (2 a)
  note s = sextets [OF byte_bound [of a] byte_bound [of a] byte_bound [of a]]
  note r = regroup [OF byte_bound [of a] byte_bound [of a]]
  have "b64decode (b64encode [a]) =
          Some [of_nat ((unat a div 4) * 4 + ((unat a mod 4) * 16) div 16)]"
    by (simp only: b64encode.simps Let_def b64decode_group1 [OF s(1) s(2)])
  also have "\<dots> = Some [a]"
    by (simp only: of_nat_unat_byte [OF r(4)])
  finally show ?case .
next
  case (3 a b)
  note s = sextets [OF byte_bound [of a] byte_bound [of b] byte_bound [of b]]
  note r = regroup [OF byte_bound [of b] byte_bound [of b]]
  have "b64decode (b64encode [a, b]) =
          Some [of_nat ((unat a div 4) * 4 + ((unat a mod 4) * 16 + unat b div 16) div 16),
                of_nat ((((unat a mod 4) * 16 + unat b div 16) mod 16) * 16
                  + ((unat b mod 16) * 4) div 4)]"
    by (simp only: b64encode.simps Let_def b64decode_group2 [OF s(1) s(3) s(4)])
  also have "\<dots> = Some [a, b]"
    by (simp only: of_nat_unat_byte [OF r(1)] of_nat_unat_byte [OF r(5)])
  finally show ?case .
next
  case (4 a b c rest)
  note s = sextets [OF byte_bound [of a] byte_bound [of b] byte_bound [of c]]
  note r = regroup [OF byte_bound [of b] byte_bound [of c]]
  have "b64decode (b64encode (a # b # c # rest)) =
          map_option (append
            [of_nat ((unat a div 4) * 4 + ((unat a mod 4) * 16 + unat b div 16) div 16),
             of_nat ((((unat a mod 4) * 16 + unat b div 16) mod 16) * 16
               + ((unat b mod 16) * 4 + unat c div 64) div 4),
             of_nat ((((unat b mod 16) * 4 + unat c div 64) mod 4) * 64 + unat c mod 64)])
            (b64decode (b64encode rest))"
    by (simp only: b64encode.simps Let_def append.simps
        b64decode_group [OF s(1) s(3) s(5) s(6)])
  also have "\<dots> = Some (a # b # c # rest)"
    by (simp only: of_nat_unat_byte [OF r(1)] of_nat_unat_byte [OF r(2)]
        of_nat_unat_byte [OF r(3)] "4.IH" option.map append.simps)
  finally show ?case .
qed

lemma unat_byte_of_nat: "n < 256 \<Longrightarrow> unat (of_nat n :: byte) = n"
  by (simp add: unat_of_nat)

lemma utf8_decode_low:
  assumes "n < 128"
  shows "utf8_decode ((of_nat n :: byte) # bs) = map_option (Cons (char_of n)) (utf8_decode bs)"
proof -
  let ?a = "of_nat n :: byte"
  have u: "unat ?a = n"
    using assms by (intro unat_byte_of_nat) simp
  have lt: "?a < 128"
    unfolding word_less_nat_alt u using assms by simp
  show ?thesis
  proof (cases bs)
    case Nil
    then show ?thesis using lt by (simp only: utf8_decode.simps u if_True option.map)
  next
    case (Cons b bs')
    then show ?thesis using lt by (simp only: utf8_decode.simps u if_True)
  qed
qed


lemma utf8_decode_high:
  assumes "128 \<le> n" "n < 256"
  shows "utf8_decode ((of_nat (192 + n div 64) :: byte) # of_nat (128 + n mod 64) # bs) =
           map_option (Cons (char_of n)) (utf8_decode bs)"
proof -
  let ?a = "of_nat (192 + n div 64) :: byte"
  let ?b = "of_nat (128 + n mod 64) :: byte"
  have "n div 64 < 4" using assms by simp
  moreover have "2 \<le> n div 64" using assms by simp
  ultimately have d: "n div 64 = 2 \<or> n div 64 = 3"
    by arith
  have ua: "unat ?a = 192 + n div 64"
    using d by (intro unat_byte_of_nat) auto
  have "n mod 64 < 64" by simp
  then have "128 + n mod 64 < 256" by arith
  then have ub: "unat ?b = 128 + n mod 64"
    by (rule unat_byte_of_nat)
  have a1: "\<not> ?a < 128"
    unfolding word_less_nat_alt ua by simp
  have a2: "?a = 194 \<or> ?a = 195"
  proof -
    from d ua have "unat ?a = unat (194 :: byte) \<or> unat ?a = unat (195 :: byte)"
      by auto
    then show ?thesis
      by (simp only: word_unat_eq_iff)
  qed
  have b1: "128 \<le> ?b"
    unfolding word_le_nat_alt ub by simp
  have b2: "?b < 192"
    unfolding word_less_nat_alt ub by simp
  have v: "(unat ?a - 192) * 64 + (unat ?b - 128) = n"
    unfolding ua ub by simp
  have "utf8_decode (?a # ?b # bs) =
          map_option (Cons (char_of ((unat ?a - 192) * 64 + (unat ?b - 128)))) (utf8_decode bs)"
    using a1 a2 b1 b2 by (simp only: utf8_decode.simps if_False if_True simp_thms)
  then show ?thesis
    by (simp only: v)
qed

lemma utf8_decode_char:
  "utf8_decode (utf8_char c @ bs) = map_option (Cons c) (utf8_decode bs)"
proof (cases "(of_char c :: nat) < 128")
  case True
  then have "utf8_char c @ bs = (of_nat (of_char c) :: byte) # bs"
    by (simp only: utf8_char_def Let_def if_True append.simps)
  then show ?thesis
    using utf8_decode_low [OF True, of bs] by (simp only: char_of_char)
next
  case False
  then have "utf8_char c @ bs =
      (of_nat (192 + of_char c div 64) :: byte) # of_nat (128 + of_char c mod 64) # bs"
    by (simp only: utf8_char_def Let_def if_False append.simps)
  moreover have "128 \<le> (of_char c :: nat)" "(of_char c :: nat) < 256"
    using False by simp_all
  ultimately show ?thesis
    using utf8_decode_high [of "of_char c" bs] by (simp only: char_of_char)
qed

lemma utf8_decode_utf8_encode: "utf8_decode (utf8_encode s) = Some s"
proof (induction s)
  case Nil
  show ?case by (simp add: utf8_encode_def)
next
  case (Cons c s)
  have "utf8_encode (c # s) = utf8_char c @ utf8_encode s"
    by (simp add: utf8_encode_def)
  then show ?case
    by (simp only: utf8_decode_char Cons.IH option.map)
qed

lemma send_request_result:
  assumes "session_call method (request_url c method uri params) data = Inr req"
    and "session req = Inr resp"
  shows "fst (send_request session c method uri data params) =
           read_response (request_url c method uri params) params resp"
  using assms by (simp add: send_request_def)

lemma error_message_contains:
  "contains (str_int (status_code resp)) (error_message u params resp)"
  "contains (case json resp of Some j \<Rightarrow> py_str j | None \<Rightarrow> text_of resp) (error_message u params resp)"
  "contains u (error_message u params resp)"
  "ps \<noteq> [] \<Longrightarrow> contains (py_repr (PDict ps)) (error_message u (Some ps) resp)"
proof -
  let ?e = "case json resp of Some j \<Rightarrow> py_str j | None \<Rightarrow> text_of resp"
  let ?d = "(if truthy params
             then '' [Original params: ''
                    @ py_repr (PDict (case params of Some ps \<Rightarrow> ps | None \<Rightarrow> [])) @ '']''
             else [])"
  have m: "error_message u params resp =
             ''TestRail API returned HTTP '' @ str_int (status_code resp) @ '': '' @ ?e
               @ '' [URL: '' @ u @ '']'' @ ?d"
    by (simp add: error_message_def Let_def del: py_repr.simps)
  show "contains (str_int (status_code resp)) (error_message u params resp)"
    unfolding m by (rule contains_append)
  have "error_message u params resp =
          (''TestRail API returned HTTP '' @ str_int (status_code resp) @ '': '') @ ?e
            @ ('' [URL: '' @ u @ '']'' @ ?d)"
    unfolding m by simp
  then show "contains ?e (error_message u params resp)"
    by (simp only: contains_append)
  have "error_message u params resp =
          (''TestRail API returned HTTP '' @ str_int (status_code resp) @ '': '' @ ?e
            @ '' [URL: '') @ u @ ('']'' @ ?d)"
    unfolding m by simp
  then show "contains u (error_message u params resp)"
    by (simp only: contains_append)
  assume ne: "ps \<noteq> []"
  have "error_message u (Some ps) resp =
          (''TestRail API returned HTTP '' @ str_int (status_code resp) @ '': '' @ ?e
            @ '' [URL: '' @ u @ '']'' @ '' [Original params: '') @ py_repr (PDict ps) @ '']''"
    using ne by (simp add: error_message_def Let_def truthy_def del: py_repr.simps)
  then show "contains (py_repr (PDict ps)) (error_message u (Some ps) resp)"
    by (simp only: contains_append)
qed

lemma dict_set_get_same: "dict_get (dict_set d k v) k = Some v"
  by (induction d) (auto simp: dict_get_def)

lemma dict_set_get_other: "k' \<noteq> k \<Longrightarrow> dict_get (dict_set d k v) k' = dict_get d k'"
  by (induction d) (auto simp: dict_get_def)

lemma dict_set_others:
  "filter (\<lambda>kv. fst kv \<noteq> k) (dict_set d k v) = filter (\<lambda>kv. fst kv \<noteq> k) d"
  by (induction d) auto

lemma get_sections_query_Some:
  "get_sections_query (Some s) (Some ps) = dict_set ps ''suite_id'' (PInt s)"
  by (cases ps) (simp_all add: get_sections_query_def truthy_def)

section \<open>The constructor\<close>

lemma ascii_bytes_chars: "ascii_bytes (map (\<lambda>w. char_of (unat w)) bs) = bs"
proof -
  have "(of_nat (of_char (char_of (unat w) :: char)) :: byte) = w" for w :: byte
  proof -
    have "(of_char (char_of (unat w) :: char) :: nat) = unat w mod 256"
      by (rule of_char_of)
    also have "\<dots> = unat w"
      using byte_bound [of w] by simp
    finally show ?thesis by simp
  qed
  then show ?thesis
    by (simp add: ascii_bytes_def comp_def)
qed

lemma base_url_of_init:
  assumes "TestRailClient_init b u k = Inr c"
  shows "base_url c = (if endswith b ''/'' then b else b @ ''/'') @ api_prefix"
  using assms by (auto simp: TestRailClient_init_returns)

lemma question_mark_in_prefix: "CHR ''?'' \<in> set api_prefix"
  by (simp add: api_prefix_def)

lemma endswith_slash: "endswith s ''/'' \<longleftrightarrow> s \<noteq> [] \<and> last s = CHR ''/''"
proof (cases s rule: rev_cases)
  case Nil
  then show ?thesis by (simp add: endswith_def)
next
  case (snoc t c)
  then show ?thesis by (auto simp: endswith_def suffix_def)
qed

lemma trailing_slashes_normalised:
  "trailing_slashes (if endswith b ''/'' then b else b @ ''/'') = max 1 (trailing_slashes b)"
proof (cases b rule: rev_cases)
  case Nil
  then show ?thesis by (simp add: endswith_slash trailing_slashes_def)
next
  case (snoc t c)
  then show ?thesis by (auto simp: endswith_slash trailing_slashes_def)
qed

lemma request_url_prefix: "prefix (base_url c @ uri) (request_url c method uri params)"
  by (simp add: request_url_def Let_def split: option.splits)

text \<open>
  Claim C8. The constructor returns a client for every base URL, user name and key.
  The value it stores for \<^verbatim>\<open>Authorization\<close> is \<^verbatim>\<open>Basic\<close>, a space, and the Base64
  text of the UTF-8 bytes of the user name, a colon and the key; it depends on nothing
  else. Decoding that text from Base64 gives those bytes back, and decoding them from
  UTF-8 gives the user name, the colon and the key.
\<close>

theorem auth_header:
  "\<exists>c enc. TestRailClient_init b u k = Inr c \<and>
     map_of (headers c) ''Authorization'' = Some (''Basic '' @ enc) \<and>
     ascii_str (b64encode (utf8_encode (u @ '':'' @ k))) = Inr enc \<and>
     b64decode (ascii_bytes enc) = Some (utf8_encode (u @ '':'' @ k)) \<and>
     Option.bind (b64decode (ascii_bytes enc)) utf8_decode = Some (u @ '':'' @ k)"
proof -
  let ?raw = "utf8_encode (u @ '':'' @ k)"
  let ?enc = "map (\<lambda>w. char_of (unat w)) (b64encode ?raw)"
  have d: "b64decode (ascii_bytes ?enc) = Some ?raw"
    by (simp only: ascii_bytes_chars b64decode_b64encode)
  have "Option.bind (b64decode (ascii_bytes ?enc)) utf8_decode = Some (u @ '':'' @ k)"
    by (simp only: d bind.bind_lunit utf8_decode_utf8_encode)
  with d show ?thesis
    by (simp add: TestRailClient_init_returns ascii_str_b64encode)
qed

theorem auth_header_witness:
  "TestRailClient_init ''https://example.testrail.io/'' ''alice'' ''k1'' =
     Inr \<lparr>username = ''alice'', api_key = ''k1'',
          base_url = ''https://example.testrail.io/index.php?/api/v2/'',
          headers = [(''Authorization'', ''Basic YWxpY2U6azE=''),
                     (''Content-Type'', ''application/json'')]\<rparr> \<and>
   Option.bind (b64decode (ascii_bytes ''YWxpY2U6azE='')) utf8_decode = Some ''alice:k1''"
proof -
  have a: "TestRailClient_init ''https://example.testrail.io/'' ''alice'' ''k1'' =
     Inr \<lparr>username = ''alice'', api_key = ''k1'',
          base_url = ''https://example.testrail.io/index.php?/api/v2/'',
          headers = [(''Authorization'', ''Basic YWxpY2U6azE=''),
                     (''Content-Type'', ''application/json'')]\<rparr>"
    by code_simp
  have e: "ascii_str (b64encode (utf8_encode (''alice'' @ '':'' @ ''k1''))) = Inr ''YWxpY2U6azE=''"
    by code_simp
  from auth_header [of "''https://example.testrail.io/''" "''alice''" "''k1''"] a e
  show ?thesis
    by auto
qed

text \<open>
  Claim C3, amended. For a base URL that ends with no slash or with one slash, every
  request URL starts with the base URL closed by one slash, then
  \<^verbatim>\<open>index.php?/api/v2/\<close>, then the URI: one slash stands before the fixed prefix. A
  base URL that ends with more slashes is outside this statement.
\<close>

theorem one_slash_before_prefix:
  assumes "TestRailClient_init b u k = Inr c"
    and "trailing_slashes b \<le> 1"
  shows "prefix ((if endswith b ''/'' then b else b @ ''/'') @ api_prefix @ uri)
           (request_url c method uri params) \<and>
         trailing_slashes (if endswith b ''/'' then b else b @ ''/'') = 1"
proof -
  have "base_url c @ uri = (if endswith b ''/'' then b else b @ ''/'') @ api_prefix @ uri"
    using base_url_of_init [OF assms(1)] by simp
  then have "prefix ((if endswith b ''/'' then b else b @ ''/'') @ api_prefix @ uri)
           (request_url c method uri params)"
    using request_url_prefix [of c uri "method" "params"] by simp
  moreover have "trailing_slashes (if endswith b ''/'' then b else b @ ''/'') = 1"
    using assms(2) by (simp add: trailing_slashes_normalised)
  ultimately show ?thesis by blast
qed


theorem one_slash_before_prefix_witness:
  "TestRailClient_init ''http://h'' ''alice'' ''k1'' = Inr \<lparr>username = ''alice'', api_key = ''k1'', base_url = ''http://h/index.php?/api/v2/'',
      headers = [(''Authorization'', ''Basic YWxpY2U6azE=''),
                 (''Content-Type'', ''application/json'')]\<rparr> \<and>
   trailing_slashes ''http://h'' \<le> 1 \<and>
   prefix (''http://h/'' @ api_prefix @ ''get_projects'')
     (request_url \<lparr>username = ''alice'', api_key = ''k1'', base_url = ''http://h/index.php?/api/v2/'',
      headers = [(''Authorization'', ''Basic YWxpY2U6azE=''),
                 (''Content-Type'', ''application/json'')]\<rparr> ''GET'' ''get_projects'' None) \<and>
   trailing_slashes ''http://h/'' = 1"
proof -
  have i: "TestRailClient_init ''http://h'' ''alice'' ''k1'' = Inr \<lparr>username = ''alice'', api_key = ''k1'', base_url = ''http://h/index.php?/api/v2/'',
      headers = [(''Authorization'', ''Basic YWxpY2U6azE=''),
                 (''Content-Type'', ''application/json'')]\<rparr>"
    by code_simp
  have t: "trailing_slashes ''http://h'' \<le> 1"
    by code_simp
  have e: "\<not> endswith ''http://h'' ''/''"
    by code_simp
  from one_slash_before_prefix [OF i t, of "''get_projects''" "''GET''" None] i t e
  show ?thesis
    by simp
qed

text \<open>
  Claim C3 as stated fails: the constructor adds a slash when there is none and removes
  none, so the base URL \<^verbatim>\<open>http://h//\<close> gives request URLs with two slashes before
  \<^verbatim>\<open>index.php?/api/v2/\<close>.
\<close>

theorem one_slash_counterexample:
  "TestRailClient_init ''http://h//'' ''alice'' ''k1'' = Inr \<lparr>username = ''alice'', api_key = ''k1'', base_url = ''http://h//index.php?/api/v2/'',
      headers = [(''Authorization'', ''Basic YWxpY2U6azE=''),
                 (''Content-Type'', ''application/json'')]\<rparr> \<and>
   request_url \<lparr>username = ''alice'', api_key = ''k1'', base_url = ''http://h//index.php?/api/v2/'',
      headers = [(''Authorization'', ''Basic YWxpY2U6azE=''),
                 (''Content-Type'', ''application/json'')]\<rparr> ''GET'' ''get_projects'' None =
     ''http://h//index.php?/api/v2/get_projects'' \<and>
   ''http://h//index.php?/api/v2/get_projects'' = ''http://h//'' @ api_prefix @ ''get_projects'' \<and>
   trailing_slashes ''http://h//'' = 2"
proof -
  have i: "TestRailClient_init ''http://h//'' ''alice'' ''k1'' = Inr \<lparr>username = ''alice'', api_key = ''k1'', base_url = ''http://h//index.php?/api/v2/'',
      headers = [(''Authorization'', ''Basic YWxpY2U6azE=''),
                 (''Content-Type'', ''application/json'')]\<rparr>"
    by code_simp
  have r: "request_url \<lparr>username = ''alice'', api_key = ''k1'', base_url = ''http://h//index.php?/api/v2/'',
      headers = [(''Authorization'', ''Basic YWxpY2U6azE=''),
                 (''Content-Type'', ''application/json'')]\<rparr> ''GET'' ''get_projects'' None =
     ''http://h//index.php?/api/v2/get_projects''"
    by code_simp
  have p: "''http://h//index.php?/api/v2/get_projects'' = ''http://h//'' @ api_prefix @ ''get_projects''"
    by code_simp
  have t: "trailing_slashes ''http://h//'' = 2"
    by code_simp
  from i r p t show ?thesis
    by (simp only: simp_thms)
qed

section \<open>The dispatcher\<close>

text \<open>
  Claim C5. A method whose upper-case form is none of \<^verbatim>\<open>GET\<close>, \<^verbatim>\<open>POST\<close>, \<^verbatim>\<open>PUT\<close>,
  \<^verbatim>\<open>DELETE\<close> makes \<^verbatim>\<open>_send_request\<close> raise \<^verbatim>\<open>ValueError\<close>, and no request goes out
  on the session.
\<close>

theorem unsupported_method_raises:
  assumes "upper method \<notin> {''GET'', ''POST'', ''PUT'', ''DELETE''}"
  shows "send_request session c method uri data params =
           (Inl (ValueError (''Unsupported HTTP method: '' @ method)), [])"
  using assms by (simp add: send_request_def session_call_def)

theorem unsupported_method_raises_witness:
  "upper ''PATCH'' \<notin> {''GET'', ''POST'', ''PUT'', ''DELETE''} \<and>
   send_request (\<lambda>r. Inl RequestException)
     \<lparr>username = ''alice'', api_key = ''k1'', base_url = ''http://h/index.php?/api/v2/'',
      headers = []\<rparr> ''PATCH'' ''get_case/1'' None None =
     (Inl (ValueError ''Unsupported HTTP method: PATCH''), [])"
proof -
  have h: "upper ''PATCH'' \<notin> {''GET'', ''POST'', ''PUT'', ''DELETE''}"
    by (simp add: upper_def upper_char_def)
  from unsupported_method_raises [OF h] show ?thesis using h by simp
qed

text \<open>
  Claim C9. A call with the method \<^verbatim>\<open>GET\<close> or \<^verbatim>\<open>DELETE\<close> sends one request, of that
  verb and with no body. A call with the method \<^verbatim>\<open>POST\<close> or \<^verbatim>\<open>PUT\<close> sends one request,
  of that verb, whose body is \<^verbatim>\<open>json.dumps(data)\<close> when \<^verbatim>\<open>data\<close> is a dictionary that is
  not empty, and which has no body when \<^verbatim>\<open>data\<close> is \<^verbatim>\<open>None\<close> or empty. Any other method
  sends nothing. So every request that goes out has the body the claim says.
\<close>

theorem request_bodies:
  "(upper method = ''GET'' \<longrightarrow>
      snd (send_request session c method uri data params) =
        [\<lparr>verb = GET, url = request_url c method uri params, body = None\<rparr>]) \<and>
   (upper method = ''DELETE'' \<longrightarrow>
      snd (send_request session c method uri data params) =
        [\<lparr>verb = DELETE, url = request_url c method uri params, body = None\<rparr>]) \<and>
   (upper method = ''POST'' \<longrightarrow>
      snd (send_request session c method uri data params) =
        [\<lparr>verb = POST, url = request_url c method uri params,
          body = (case data of
                    None \<Rightarrow> None
                  | Some d \<Rightarrow> if d = [] then None else Some (json_dumps (PDict d)))\<rparr>]) \<and>
   (upper method = ''PUT'' \<longrightarrow>
      snd (send_request session c method uri data params) =
        [\<lparr>verb = PUT, url = request_url c method uri params,
          body = (case data of
                    None \<Rightarrow> None
                  | Some d \<Rightarrow> if d = [] then None else Some (json_dumps (PDict d)))\<rparr>]) \<and>
   (upper method \<notin> {''GET'', ''POST'', ''PUT'', ''DELETE''} \<longrightarrow>
      snd (send_request session c method uri data params) = []) \<and>
   (\<forall>req \<in> set (snd (send_request session c method uri data params)).
      (verb req = GET \<or> verb req = DELETE \<longrightarrow> body req = None) \<and>
      (verb req = POST \<or> verb req = PUT \<longrightarrow>
         body req = (case data of
                       None \<Rightarrow> None
                     | Some d \<Rightarrow> if d = [] then None else Some (json_dumps (PDict d)))))"
proof -
  let ?sent = "snd (send_request session c method uri data params)"
  let ?u = "request_url c method uri params"
  let ?b = "case data of
              None \<Rightarrow> None
            | Some d \<Rightarrow> if d = [] then None else Some (json_dumps (PDict d))"
  have g: "upper method = ''GET'' \<longrightarrow> ?sent = [\<lparr>verb = GET, url = ?u, body = None\<rparr>]"
    by (simp add: send_request_requests session_call_def)
  have d: "upper method = ''DELETE'' \<longrightarrow> ?sent = [\<lparr>verb = DELETE, url = ?u, body = None\<rparr>]"
    by (simp add: send_request_requests session_call_def)
  have p: "upper method = ''POST'' \<longrightarrow> ?sent = [\<lparr>verb = POST, url = ?u, body = ?b\<rparr>]"
    by (simp add: send_request_requests session_call_def split: option.splits)
  have q: "upper method = ''PUT'' \<longrightarrow> ?sent = [\<lparr>verb = PUT, url = ?u, body = ?b\<rparr>]"
    by (simp add: send_request_requests session_call_def split: option.splits)
  have n: "upper method \<notin> {''GET'', ''POST'', ''PUT'', ''DELETE''} \<longrightarrow> ?sent = []"
    by (simp add: send_request_requests session_call_def)
  have m: "\<forall>req \<in> set ?sent.
      (verb req = GET \<or> verb req = DELETE \<longrightarrow> body req = None) \<and>
      (verb req = POST \<or> verb req = PUT \<longrightarrow> body req = ?b)"
    by (auto simp: send_request_requests session_call_def split: if_splits option.splits)
  from g d p q n m show ?thesis
    by (intro conjI)
qed

theorem request_bodies_witness:
  "upper ''put'' = ''PUT'' \<and>
   snd (send_request (\<lambda>r. Inl RequestException) \<lparr>username = ''alice'', api_key = ''k1'', base_url = ''http://h/index.php?/api/v2/'',
      headers = []\<rparr>
          ''put'' ''update_case/1'' (Some [(''title'', PStr ''a b'')]) None) =
     [\<lparr>verb = PUT, url = ''http://h/index.php?/api/v2/update_case/1'',
       body = Some (''{'' @ [dquote] @ ''title'' @ [dquote] @ '': '' @ [dquote] @ ''a b''
                      @ [dquote] @ ''}'')\<rparr>] \<and>
   upper ''POST'' = ''POST'' \<and>
   snd (send_request (\<lambda>r. Inl RequestException) \<lparr>username = ''alice'', api_key = ''k1'', base_url = ''http://h/index.php?/api/v2/'',
      headers = []\<rparr>
          ''POST'' ''delete_case/1'' (Some []) None) =
     [\<lparr>verb = POST, url = ''http://h/index.php?/api/v2/delete_case/1'', body = None\<rparr>] \<and>
   upper ''Delete'' = ''DELETE'' \<and>
   snd (send_request (\<lambda>r. Inl RequestException) \<lparr>username = ''alice'', api_key = ''k1'', base_url = ''http://h/index.php?/api/v2/'',
      headers = []\<rparr>
          ''Delete'' ''delete_case/1'' (Some [(''title'', PStr ''a b'')]) None) =
     [\<lparr>verb = DELETE, url = ''http://h/index.php?/api/v2/delete_case/1'', body = None\<rparr>]"
proof -
  have u1: "upper ''put'' = ''PUT''"
    by code_simp
  have u2: "upper ''POST'' = ''POST''"
    by code_simp
  have u3: "upper ''Delete'' = ''DELETE''"
    by code_simp
  have j: "json_dumps (PDict [(''title'', PStr ''a b'')]) =
       ''{'' @ [dquote] @ ''title'' @ [dquote] @ '': '' @ [dquote] @ ''a b'' @ [dquote] @ ''}''"
    by code_simp
  have r1: "request_url \<lparr>username = ''alice'', api_key = ''k1'', base_url = ''http://h/index.php?/api/v2/'',
      headers = []\<rparr> ''put'' ''update_case/1'' None = ''http://h/index.php?/api/v2/update_case/1''"
    by code_simp
  have r2: "request_url \<lparr>username = ''alice'', api_key = ''k1'', base_url = ''http://h/index.php?/api/v2/'',
      headers = []\<rparr> ''POST'' ''delete_case/1'' None = ''http://h/index.php?/api/v2/delete_case/1''"
    by code_simp
  have r3: "request_url \<lparr>username = ''alice'', api_key = ''k1'', base_url = ''http://h/index.php?/api/v2/'',
      headers = []\<rparr> ''Delete'' ''delete_case/1'' None = ''http://h/index.php?/api/v2/delete_case/1''"
    by code_simp
  have a: "snd (send_request (\<lambda>r. Inl RequestException) \<lparr>username = ''alice'', api_key = ''k1'', base_url = ''http://h/index.php?/api/v2/'',
      headers = []\<rparr>
          ''put'' ''update_case/1'' (Some [(''title'', PStr ''a b'')]) None) =
     [\<lparr>verb = PUT, url = ''http://h/index.php?/api/v2/update_case/1'',
       body = Some (''{'' @ [dquote] @ ''title'' @ [dquote] @ '': '' @ [dquote] @ ''a b''
                      @ [dquote] @ ''}'')\<rparr>]"
    using request_bodies [of "''put''" "\<lambda>r. Inl RequestException"
        "\<lparr>username = ''alice'', api_key = ''k1'', base_url = ''http://h/index.php?/api/v2/'',
      headers = []\<rparr>"
        "''update_case/1''" "Some [(''title'', PStr ''a b'')]" None] u1
    by (simp only: r1 j [symmetric] option.case list.simps if_False simp_thms)
  have b: "snd (send_request (\<lambda>r. Inl RequestException) \<lparr>username = ''alice'', api_key = ''k1'', base_url = ''http://h/index.php?/api/v2/'',
      headers = []\<rparr>
          ''POST'' ''delete_case/1'' (Some []) None) =
     [\<lparr>verb = POST, url = ''http://h/index.php?/api/v2/delete_case/1'', body = None\<rparr>]"
    using request_bodies [of "''POST''" "\<lambda>r. Inl RequestException"
        "\<lparr>username = ''alice'', api_key = ''k1'', base_url = ''http://h/index.php?/api/v2/'',
      headers = []\<rparr>"
        "''delete_case/1''" "Some []" None] u2
    by (simp only: r2 option.case if_True simp_thms)
  have d: "snd (send_request (\<lambda>r. Inl RequestException) \<lparr>username = ''alice'', api_key = ''k1'', base_url = ''http://h/index.php?/api/v2/'',
      headers = []\<rparr>
          ''Delete'' ''delete_case/1'' (Some [(''title'', PStr ''a b'')]) None) =
     [\<lparr>verb = DELETE, url = ''http://h/index.php?/api/v2/delete_case/1'', body = None\<rparr>]"
    using request_bodies [of "''Delete''" "\<lambda>r. Inl RequestException"
        "\<lparr>username = ''alice'', api_key = ''k1'', base_url = ''http://h/index.php?/api/v2/'',
      headers = []\<rparr>"
        "''delete_case/1''" "Some [(''title'', PStr ''a b'')]" None] u3
    by (simp only: r3 simp_thms)
  from u1 a u2 b u3 d show ?thesis
    by (intro conjI)
qed

text \<open>
  Claim C10. For a GET whose \<^verbatim>\<open>params\<close> is empty, or holds \<^verbatim>\<open>None\<close> values only, the
  URL of the request is the base followed by the URI and nothing more; \<^verbatim>\<open>get_cases\<close>
  without a suite sends its GET to the base followed by \<^verbatim>\<open>get_cases/\<close> and the project.
\<close>

theorem empty_query_leaves_url:
  assumes "upper method = ''GET''"
    and "filter (\<lambda>kv. snd kv \<noteq> PNone) ps = []"
  shows "snd (send_request session c method uri data (Some ps)) =
           [\<lparr>verb = GET, url = base_url c @ uri, body = None\<rparr>] \<and>
         snd (get_cases session c project_id None) =
           [\<lparr>verb = GET, url = base_url c @ ''get_cases/'' @ str_int project_id, body = None\<rparr>]"
  using assms
  by (simp add: send_request_GET upper_GET get_cases_def request_url_def Let_def)

theorem empty_query_leaves_url_witness:
  "upper ''get'' = ''GET'' \<and>
   filter (\<lambda>kv. snd kv \<noteq> PNone) [(''suite_id'', PNone), (''section_id'', PNone)] = [] \<and>
   snd (send_request (\<lambda>r. Inl RequestException)
          \<lparr>username = ''alice'', api_key = ''k1'', base_url = ''http://h/index.php?/api/v2/'',
           headers = []\<rparr> ''get'' ''get_cases/3'' None
          (Some [(''suite_id'', PNone), (''section_id'', PNone)])) =
     [\<lparr>verb = GET, url = ''http://h/index.php?/api/v2/get_cases/3'', body = None\<rparr>] \<and>
   snd (get_cases (\<lambda>r. Inl RequestException)
          \<lparr>username = ''alice'', api_key = ''k1'', base_url = ''http://h/index.php?/api/v2/'',
           headers = []\<rparr> 3 None) =
     [\<lparr>verb = GET, url = ''http://h/index.php?/api/v2/get_cases/3'', body = None\<rparr>]"
proof -
  have u: "upper ''get'' = ''GET''"
    by code_simp
  have f: "filter (\<lambda>kv. snd kv \<noteq> PNone) [(''suite_id'', PNone), (''section_id'', PNone)] = []"
    by simp
  have s: "str_int 3 = ''3''"
    by code_simp
  from empty_query_leaves_url [OF u f, where project_id = 3] u f s show ?thesis
    by simp
qed

text \<open>
  Claim C4. In a GET the entries of \<^verbatim>\<open>params\<close> whose value is \<^verbatim>\<open>None\<close> are dropped:
  the URL is the base and the URI followed, when an entry remains, by the separator
  and the remaining entries as \<^verbatim>\<open>key=value\<close> in form encoding, joined by \<^verbatim>\<open>&\<close>; it is
  the URL the remaining entries alone would give. For \<^verbatim>\<open>suite_id\<close> \<^verbatim>\<open>None\<close> and \<^verbatim>\<open>x\<close> 5
  the block added is \<^verbatim>\<open>x=5\<close>.
\<close>

theorem none_params_dropped:
  assumes "upper method = ''GET''"
  shows "snd (send_request session c method uri data (Some ps)) =
           [\<lparr>verb = GET, url = request_url c method uri (Some ps), body = None\<rparr>] \<and>
         request_url c method uri (Some ps) =
           base_url c @ uri @
             (if filter (\<lambda>kv. snd kv \<noteq> PNone) ps = [] then []
              else (if CHR ''?'' \<in> set (base_url c @ uri) then ''&'' else ''?'') @
                   join ''&'' (map (\<lambda>kv. quote_plus (fst kv) @ ''='' @ quote_plus (py_str (snd kv)))
                                (filter (\<lambda>kv. snd kv \<noteq> PNone) ps))) \<and>
         request_url c method uri (Some ps) =
           request_url c method uri (Some (filter (\<lambda>kv. snd kv \<noteq> PNone) ps)) \<and>
         request_url c method uri (Some [(''suite_id'', PNone), (''x'', PInt 5)]) =
           base_url c @ uri @ (if CHR ''?'' \<in> set (base_url c @ uri) then ''&'' else ''?'') @ ''x=5''"
proof -
  have x5: "urlencode [(''x'', PInt 5)] = ''x=5''"
    by code_simp
  have 1: "snd (send_request session c method uri data (Some ps)) =
           [\<lparr>verb = GET, url = request_url c method uri (Some ps), body = None\<rparr>]"
    using assms by (simp add: send_request_GET)
  have 2: "request_url c method uri (Some ps) =
           base_url c @ uri @
             (if filter (\<lambda>kv. snd kv \<noteq> PNone) ps = [] then []
              else (if CHR ''?'' \<in> set (base_url c @ uri) then ''&'' else ''?'') @
                   join ''&'' (map (\<lambda>kv. quote_plus (fst kv) @ ''='' @ quote_plus (py_str (snd kv)))
                                (filter (\<lambda>kv. snd kv \<noteq> PNone) ps)))"
    using assms by (auto simp: request_url_def Let_def urlencode_def)
  have 3: "request_url c method uri (Some ps) =
           request_url c method uri (Some (filter (\<lambda>kv. snd kv \<noteq> PNone) ps))"
    using assms by (auto simp: request_url_def Let_def)
  have 4: "request_url c method uri (Some [(''suite_id'', PNone), (''x'', PInt 5)]) =
           base_url c @ uri @ (if CHR ''?'' \<in> set (base_url c @ uri) then ''&'' else ''?'') @ ''x=5''"
    using assms by (simp add: request_url_def Let_def x5)
  from 1 2 3 4 show ?thesis by blast
qed

theorem none_params_dropped_witness:
  "upper ''GET'' = ''GET'' \<and>
   request_url \<lparr>username = ''alice'', api_key = ''k1'', base_url = ''http://h/index.php?/api/v2/'',
                headers = []\<rparr> ''GET'' ''get_cases/3'' (Some [(''suite_id'', PNone), (''x'', PInt 5)]) =
     ''http://h/index.php?/api/v2/get_cases/3&x=5'' \<and>
   contains ''x=5'' ''http://h/index.php?/api/v2/get_cases/3&x=5'' \<and>
   \<not> contains ''suite_id'' ''http://h/index.php?/api/v2/get_cases/3&x=5''"
proof -
  have u: "upper ''GET'' = ''GET''"
    by code_simp
  have a: "contains ''x=5'' ''http://h/index.php?/api/v2/get_cases/3&x=5''"
    by simp
  have b: "\<not> contains ''suite_id'' ''http://h/index.php?/api/v2/get_cases/3&x=5''"
    by simp
  note t = none_params_dropped [OF u, where c = "\<lparr>username = ''alice'', api_key = ''k1'',
      base_url = ''http://h/index.php?/api/v2/'', headers = []\<rparr>" and uri = "''get_cases/3''"]
  from t [THEN conjunct2, THEN conjunct2, THEN conjunct2] u a b show ?thesis
    by simp
qed

text \<open>
  Claim C2, amended. For a client made by the constructor, a GET whose \<^verbatim>\<open>params\<close> keep
  an entry after the \<^verbatim>\<open>None\<close> values are dropped gets the encoded block appended with
  \<^verbatim>\<open>&\<close>, whether the URI holds a \<^verbatim>\<open>?\<close> or not: the test is made on the whole URL, and
  the prefix \<^verbatim>\<open>index.php?/api/v2/\<close> of the base always holds one.
\<close>

theorem separator_is_ampersand:
  assumes "TestRailClient_init b u k = Inr c"
    and "upper method = ''GET''"
    and "filter (\<lambda>kv. snd kv \<noteq> PNone) ps \<noteq> []"
  shows "request_url c method uri (Some ps) =
           base_url c @ uri @ ''&'' @ urlencode (filter (\<lambda>kv. snd kv \<noteq> PNone) ps)"
proof -
  have q: "CHR ''?'' \<in> set (base_url c @ uri)"
    using base_url_of_init [OF assms(1)] question_mark_in_prefix by simp
  have "ps \<noteq> []"
    using assms(3) by auto
  then show ?thesis
    using assms(2,3) q by (simp add: request_url_def Let_def)
qed

theorem separator_is_ampersand_witness:
  "TestRailClient_init ''http://h'' ''alice'' ''k1'' =
     Inr \<lparr>username = ''alice'', api_key = ''k1'', base_url = ''http://h/index.php?/api/v2/'',
          headers = [(''Authorization'', ''Basic YWxpY2U6azE=''),
                     (''Content-Type'', ''application/json'')]\<rparr> \<and>
   upper ''GET'' = ''GET'' \<and>
   filter (\<lambda>kv. snd kv \<noteq> PNone) [(''a'', PInt 1)] \<noteq> [] \<and>
   request_url
     \<lparr>username = ''alice'', api_key = ''k1'', base_url = ''http://h/index.php?/api/v2/'',
      headers = [(''Authorization'', ''Basic YWxpY2U6azE=''),
                 (''Content-Type'', ''application/json'')]\<rparr>
     ''GET'' ''delete_section/9?soft=1'' (Some [(''a'', PInt 1)]) =
     ''http://h/index.php?/api/v2/delete_section/9?soft=1&a=1''"
proof -
  have i: "TestRailClient_init ''http://h'' ''alice'' ''k1'' =
     Inr \<lparr>username = ''alice'', api_key = ''k1'', base_url = ''http://h/index.php?/api/v2/'',
          headers = [(''Authorization'', ''Basic YWxpY2U6azE=''),
                     (''Content-Type'', ''application/json'')]\<rparr>"
    by code_simp
  have u: "upper ''GET'' = ''GET''"
    by code_simp
  have f: "filter (\<lambda>kv. snd kv \<noteq> PNone) [(''a'', PInt 1)] \<noteq> []"
    by simp
  have e: "urlencode (filter (\<lambda>kv. snd kv \<noteq> PNone) [(''a'', PInt 1)]) = ''a=1''"
    by code_simp
  from separator_is_ampersand [OF i u f, of "''delete_section/9?soft=1''"] i u f
  show ?thesis
    unfolding e by simp
qed

text \<open>
  Claim C2 as stated fails where the URI holds no \<^verbatim>\<open>?\<close>: the block is appended to
  \<^verbatim>\<open>get_cases/3\<close> with \<^verbatim>\<open>&\<close>, not with \<^verbatim>\<open>?\<close>.
\<close>

theorem separator_counterexample:
  "CHR ''?'' \<notin> set ''get_cases/3'' \<and>
   TestRailClient_init ''http://h'' ''alice'' ''k1'' =
     Inr \<lparr>username = ''alice'', api_key = ''k1'', base_url = ''http://h/index.php?/api/v2/'',
          headers = [(''Authorization'', ''Basic YWxpY2U6azE=''),
                     (''Content-Type'', ''application/json'')]\<rparr> \<and>
   request_url
     \<lparr>username = ''alice'', api_key = ''k1'', base_url = ''http://h/index.php?/api/v2/'',
      headers = [(''Authorization'', ''Basic YWxpY2U6azE=''),
                 (''Content-Type'', ''application/json'')]\<rparr>
     ''GET'' ''get_cases/3'' (Some [(''suite_id'', PInt 7)]) =
     ''http://h/index.php?/api/v2/get_cases/3&suite_id=7'' \<and>
   request_url
     \<lparr>username = ''alice'', api_key = ''k1'', base_url = ''http://h/index.php?/api/v2/'',
      headers = [(''Authorization'', ''Basic YWxpY2U6azE=''),
                 (''Content-Type'', ''application/json'')]\<rparr>
     ''GET'' ''get_cases/3'' (Some [(''suite_id'', PInt 7)]) \<noteq>
     ''http://h/index.php?/api/v2/get_cases/3?suite_id=7''"
proof -
  have a: "CHR ''?'' \<notin> set ''get_cases/3''"
    by simp
  have i: "TestRailClient_init ''http://h'' ''alice'' ''k1'' =
     Inr \<lparr>username = ''alice'', api_key = ''k1'', base_url = ''http://h/index.php?/api/v2/'',
          headers = [(''Authorization'', ''Basic YWxpY2U6azE=''),
                     (''Content-Type'', ''application/json'')]\<rparr>"
    by code_simp
  have r: "request_url
     \<lparr>username = ''alice'', api_key = ''k1'', base_url = ''http://h/index.php?/api/v2/'',
      headers = [(''Authorization'', ''Basic YWxpY2U6azE=''),
                 (''Content-Type'', ''application/json'')]\<rparr>
     ''GET'' ''get_cases/3'' (Some [(''suite_id'', PInt 7)]) =
     ''http://h/index.php?/api/v2/get_cases/3&suite_id=7''"
    by code_simp
  have n: "''http://h/index.php?/api/v2/get_cases/3&suite_id=7'' \<noteq>
     ''http://h/index.php?/api/v2/get_cases/3?suite_id=7''"
    by simp
  from a i r n show ?thesis
    by (simp only: simp_thms)
qed

text \<open>
  Claim C1, amended. When the method is supported and the session answers with a
  response, the \<^verbatim>\<open>Exception\<close> with the message \<^verbatim>\<open>TestRail API returned HTTP ...\<close> is
  raised exactly when the status is 300 or more; an error of any kind is raised exactly
  when the status is 300 or more, or the body is not empty and \<^verbatim>\<open>json()\<close> fails. The
  message holds the status code, the decoded body (the raw text when decoding fails), the
  URL of the request and, when \<^verbatim>\<open>params\<close> was given and is not empty, the mapping as it
  was given.
\<close>

theorem error_raised:
  assumes "session_call method (request_url c method uri params) data = Inr req"
    and "session req = Inr resp"
  shows "((\<exists>msg. fst (send_request session c method uri data params) = Inl (Exception msg))
            \<longleftrightarrow> 300 \<le> status_code resp) \<and>
         ((\<exists>e. fst (send_request session c method uri data params) = Inl e)
            \<longleftrightarrow> 300 \<le> status_code resp \<or> (content resp \<noteq> [] \<and> json resp = None)) \<and>
         (300 \<le> status_code resp \<longrightarrow>
            (\<exists>msg. fst (send_request session c method uri data params) = Inl (Exception msg) \<and>
               contains (str_int (status_code resp)) msg \<and>
               contains (case json resp of Some j \<Rightarrow> py_str j | None \<Rightarrow> text_of resp) msg \<and>
               contains (request_url c method uri params) msg \<and>
               (\<forall>ps. params = Some ps \<and> ps \<noteq> [] \<longrightarrow> contains (py_repr (PDict ps)) msg)))"
proof -
  let ?u = "request_url c method uri params"
  have r: "fst (send_request session c method uri data params) = read_response ?u params resp"
    using assms by (rule send_request_result)
  have 1: "(\<exists>msg. read_response ?u params resp = Inl (Exception msg)) \<longleftrightarrow> 300 \<le> status_code resp"
    by (auto simp: read_response_def split: option.splits)
  have 2: "(\<exists>e. read_response ?u params resp = Inl e)
             \<longleftrightarrow> 300 \<le> status_code resp \<or> (content resp \<noteq> [] \<and> json resp = None)"
    by (auto simp: read_response_def split: option.splits)
  have 3: "300 \<le> status_code resp \<longrightarrow>
            (\<exists>msg. read_response ?u params resp = Inl (Exception msg) \<and>
               contains (str_int (status_code resp)) msg \<and>
               contains (case json resp of Some j \<Rightarrow> py_str j | None \<Rightarrow> text_of resp) msg \<and>
               contains ?u msg \<and>
               (\<forall>ps. params = Some ps \<and> ps \<noteq> [] \<longrightarrow> contains (py_repr (PDict ps)) msg))"
  proof
    assume s: "300 \<le> status_code resp"
    have "read_response ?u params resp = Inl (Exception (error_message ?u params resp))"
      using s by (simp add: read_response_def)
    moreover have "\<forall>ps. params = Some ps \<and> ps \<noteq> [] \<longrightarrow>
        contains (py_repr (PDict ps)) (error_message ?u params resp)"
      using error_message_contains(4) by blast
    ultimately show "\<exists>msg. read_response ?u params resp = Inl (Exception msg) \<and>
               contains (str_int (status_code resp)) msg \<and>
               contains (case json resp of Some j \<Rightarrow> py_str j | None \<Rightarrow> text_of resp) msg \<and>
               contains ?u msg \<and>
               (\<forall>ps. params = Some ps \<and> ps \<noteq> [] \<longrightarrow> contains (py_repr (PDict ps)) msg)"
      using error_message_contains(1-3) by blast
  qed
  from 1 2 3 show ?thesis unfolding r by blast
qed

theorem error_raised_witness:
  "session_call ''GET'' (request_url \<lparr>username = ''alice'', api_key = ''k1'', base_url = ''http://h/index.php?/api/v2/'',
      headers = []\<rparr> ''GET'' ''get_case/1'' None) None =
     Inr \<lparr>verb = GET, url = ''http://h/index.php?/api/v2/get_case/1'', body = None\<rparr> \<and>
   fst (send_request
          (\<lambda>r. Inr \<lparr>status_code = 404, content = utf8_encode (json_dumps (PDict [(''error'', PStr ''not found'')])),
                     text_of = json_dumps (PDict [(''error'', PStr ''not found'')]),
                     json = Some (PDict [(''error'', PStr ''not found'')])\<rparr>)
          \<lparr>username = ''alice'', api_key = ''k1'', base_url = ''http://h/index.php?/api/v2/'',
      headers = []\<rparr> ''GET'' ''get_case/1'' None None) =
     Inl (Exception (''TestRail API returned HTTP 404: {'' @ [squote] @ ''error'' @ [squote]
            @ '': '' @ [squote] @ ''not found'' @ [squote]
            @ ''} [URL: http://h/index.php?/api/v2/get_case/1]'')) \<and>
   contains ''404'' (''TestRail API returned HTTP 404: {'' @ [squote] @ ''error'' @ [squote]
            @ '': '' @ [squote] @ ''not found'' @ [squote]
            @ ''} [URL: http://h/index.php?/api/v2/get_case/1]'') \<and>
   contains ''not found'' (''TestRail API returned HTTP 404: {'' @ [squote] @ ''error'' @ [squote]
            @ '': '' @ [squote] @ ''not found'' @ [squote]
            @ ''} [URL: http://h/index.php?/api/v2/get_case/1]'')"
proof -
  let ?resp = "\<lparr>status_code = 404, content = utf8_encode (json_dumps (PDict [(''error'', PStr ''not found'')])),
                     text_of = json_dumps (PDict [(''error'', PStr ''not found'')]),
                json = Some (PDict [(''error'', PStr ''not found'')])\<rparr>"
  have h1: "session_call ''GET'' (request_url \<lparr>username = ''alice'', api_key = ''k1'', base_url = ''http://h/index.php?/api/v2/'',
      headers = []\<rparr> ''GET'' ''get_case/1'' None) None =
     Inr \<lparr>verb = GET, url = ''http://h/index.php?/api/v2/get_case/1'', body = None\<rparr>"
    by code_simp
  have h2: "(\<lambda>r. Inr ?resp) \<lparr>verb = GET, url = ''http://h/index.php?/api/v2/get_case/1'', body = None\<rparr>
              = (Inr ?resp :: py_error + response)"
    by simp
  have v: "fst (send_request (\<lambda>r. Inr ?resp) \<lparr>username = ''alice'', api_key = ''k1'', base_url = ''http://h/index.php?/api/v2/'',
      headers = []\<rparr> ''GET'' ''get_case/1'' None None) =
     Inl (Exception (''TestRail API returned HTTP 404: {'' @ [squote] @ ''error'' @ [squote]
            @ '': '' @ [squote] @ ''not found'' @ [squote]
            @ ''} [URL: http://h/index.php?/api/v2/get_case/1]''))"
    by code_simp
  have c1: "contains ''404'' (''TestRail API returned HTTP 404: {'' @ [squote] @ ''error'' @ [squote]
            @ '': '' @ [squote] @ ''not found'' @ [squote]
            @ ''} [URL: http://h/index.php?/api/v2/get_case/1]'')"
    by code_simp
  have c2: "contains ''not found'' (''TestRail API returned HTTP 404: {'' @ [squote] @ ''error'' @ [squote]
            @ '': '' @ [squote] @ ''not found'' @ [squote]
            @ ''} [URL: http://h/index.php?/api/v2/get_case/1]'')"
    by code_simp
  from error_raised [OF h1 h2] h1 v c1 c2 show ?thesis
    by blast
qed

text \<open>
  Claim C1 as stated fails twice. A response with status 201 whose body is not JSON makes
  the call raise, with a status below 300. And for the empty mapping given as
  \<^verbatim>\<open>params\<close> the message of a 404 does not hold the mapping.
\<close>

theorem error_raised_counterexample:
  "status_code \<lparr>status_code = 201, content = [79, 75], text_of = ''OK'', json = None\<rparr> < 300 \<and>
   send_request
     (\<lambda>r. Inr \<lparr>status_code = 201, content = [79, 75], text_of = ''OK'', json = None\<rparr>)
     \<lparr>username = ''alice'', api_key = ''k1'', base_url = ''http://h/index.php?/api/v2/'',
      headers = []\<rparr> ''POST'' ''add_case/1'' (Some [(''title'', PStr ''t'')]) None =
     (Inl JSONDecodeError,
      [\<lparr>verb = POST, url = ''http://h/index.php?/api/v2/add_case/1'',
        body = Some (json_dumps (PDict [(''title'', PStr ''t'')]))\<rparr>]) \<and>
   fst (send_request
     (\<lambda>r. Inr \<lparr>status_code = 404, content = [], text_of = ''Not Found'', json = None\<rparr>)
     \<lparr>username = ''alice'', api_key = ''k1'', base_url = ''http://h/index.php?/api/v2/'',
      headers = []\<rparr> ''GET'' ''get_cases/3'' None (Some [])) =
     Inl (Exception ''TestRail API returned HTTP 404: Not Found [URL: http://h/index.php?/api/v2/get_cases/3]'') \<and>
   \<not> contains (py_repr (PDict []))
       ''TestRail API returned HTTP 404: Not Found [URL: http://h/index.php?/api/v2/get_cases/3]''"
proof -
  have a: "status_code \<lparr>status_code = 201, content = [79, 75], text_of = ''OK'', json = None\<rparr> < 300"
    by simp
  have b: "send_request
     (\<lambda>r. Inr \<lparr>status_code = 201, content = [79, 75], text_of = ''OK'', json = None\<rparr>)
     \<lparr>username = ''alice'', api_key = ''k1'', base_url = ''http://h/index.php?/api/v2/'',
      headers = []\<rparr> ''POST'' ''add_case/1'' (Some [(''title'', PStr ''t'')]) None =
     (Inl JSONDecodeError,
      [\<lparr>verb = POST, url = ''http://h/index.php?/api/v2/add_case/1'',
        body = Some (json_dumps (PDict [(''title'', PStr ''t'')]))\<rparr>])"
    by code_simp
  have c: "fst (send_request
     (\<lambda>r. Inr \<lparr>status_code = 404, content = [], text_of = ''Not Found'', json = None\<rparr>)
     \<lparr>username = ''alice'', api_key = ''k1'', base_url = ''http://h/index.php?/api/v2/'',
      headers = []\<rparr> ''GET'' ''get_cases/3'' None (Some [])) =
     Inl (Exception ''TestRail API returned HTTP 404: Not Found [URL: http://h/index.php?/api/v2/get_cases/3]'')"
    by code_simp
  have d: "\<not> contains (py_repr (PDict []))
       ''TestRail API returned HTTP 404: Not Found [URL: http://h/index.php?/api/v2/get_cases/3]''"
    by code_simp
  from a b c d show ?thesis by blast
qed

text \<open>
  Claim C6, amended. When the method is supported and the response has a status below
  300, the call returns the empty mapping for an empty body and the decoded value for a
  body that \<^verbatim>\<open>json()\<close> decodes; for a body that is not empty and that \<^verbatim>\<open>json()\<close> does
  not decode, the decode error is raised.
\<close>

theorem success_result:
  assumes "session_call method (request_url c method uri params) data = Inr req"
    and "session req = Inr resp"
    and "status_code resp < 300"
  shows "fst (send_request session c method uri data params) =
           (if content resp = [] then Inr (PDict [])
            else case json resp of Some j \<Rightarrow> Inr j | None \<Rightarrow> Inl JSONDecodeError)"
  using assms by (simp add: send_request_def read_response_def)

theorem success_result_witness:
  "session_call ''GET'' (request_url \<lparr>username = ''alice'', api_key = ''k1'', base_url = ''http://h/index.php?/api/v2/'',
      headers = []\<rparr> ''GET'' ''get_projects'' None) None =
     Inr \<lparr>verb = GET, url = ''http://h/index.php?/api/v2/get_projects'', body = None\<rparr> \<and>
   status_code \<lparr>status_code = 200, content = [], text_of = [], json = None\<rparr> < 300 \<and>
   fst (send_request
          (\<lambda>r. Inr \<lparr>status_code = 200, content = [], text_of = [], json = None\<rparr>)
          \<lparr>username = ''alice'', api_key = ''k1'', base_url = ''http://h/index.php?/api/v2/'',
      headers = []\<rparr> ''GET'' ''get_projects'' None None) = Inr (PDict [])"
proof -
  let ?resp = "\<lparr>status_code = 200, content = [], text_of = [], json = None\<rparr>"
  have h1: "session_call ''GET'' (request_url \<lparr>username = ''alice'', api_key = ''k1'', base_url = ''http://h/index.php?/api/v2/'',
      headers = []\<rparr> ''GET'' ''get_projects'' None) None =
     Inr \<lparr>verb = GET, url = ''http://h/index.php?/api/v2/get_projects'', body = None\<rparr>"
    by code_simp
  have h2: "(\<lambda>r. Inr ?resp) \<lparr>verb = GET, url = ''http://h/index.php?/api/v2/get_projects'', body = None\<rparr>
              = (Inr ?resp :: py_error + response)"
    by simp
  have h3: "status_code ?resp < 300"
    by simp
  from success_result [OF h1 h2 h3] h1 h3 show ?thesis
    by simp
qed

text \<open>
  Claim C6 as stated fails for a response with status 200 and the body \<^verbatim>\<open><html>\<close>:
  nothing is returned, the decode error is raised.
\<close>

theorem success_result_counterexample:
  "status_code \<lparr>status_code = 200, content = [60, 104, 116, 109, 108, 62], text_of = ''<html>'',
                json = None\<rparr> < 300 \<and>
   send_request
     (\<lambda>r. Inr \<lparr>status_code = 200, content = [60, 104, 116, 109, 108, 62], text_of = ''<html>'',
                json = None\<rparr>)
     \<lparr>username = ''alice'', api_key = ''k1'', base_url = ''http://h/index.php?/api/v2/'',
      headers = []\<rparr> ''GET'' ''get_projects'' None None =
     (Inl JSONDecodeError,
      [\<lparr>verb = GET, url = ''http://h/index.php?/api/v2/get_projects'', body = None\<rparr>])"
proof -
  have a: "status_code \<lparr>status_code = 200, content = [60, 104, 116, 109, 108, 62], text_of = ''<html>'',
                json = None\<rparr> < 300"
    by simp
  have b: "send_request
     (\<lambda>r. Inr \<lparr>status_code = 200, content = [60, 104, 116, 109, 108, 62], text_of = ''<html>'',
                json = None\<rparr>)
     \<lparr>username = ''alice'', api_key = ''k1'', base_url = ''http://h/index.php?/api/v2/'',
      headers = []\<rparr> ''GET'' ''get_projects'' None None =
     (Inl JSONDecodeError,
      [\<lparr>verb = GET, url = ''http://h/index.php?/api/v2/get_projects'', body = None\<rparr>])"
    by code_simp
  from a b show ?thesis by blast
qed

section \<open>The wrappers\<close>

text \<open>
  Claim C7, amended. \<^verbatim>\<open>get_sections\<close> with a suite and a mapping from the caller sends
  the caller's mapping with \<^verbatim>\<open>suite_id\<close> set to the suite argument: every entry under
  another key is kept as it was, in its place, and an entry the caller gave under
  \<^verbatim>\<open>suite_id\<close> is replaced.
\<close>

theorem get_sections_merge:
  "get_sections session c project_id (Some s) (Some ps) =
     send_request session c ''GET'' (''get_sections/'' @ str_int project_id) None
       (Some (get_sections_query (Some s) (Some ps))) \<and>
   dict_get (get_sections_query (Some s) (Some ps)) ''suite_id'' = Some (PInt s) \<and>
   (\<forall>k. k \<noteq> ''suite_id'' \<longrightarrow>
      dict_get (get_sections_query (Some s) (Some ps)) k = dict_get ps k) \<and>
   filter (\<lambda>kv. fst kv \<noteq> ''suite_id'') (get_sections_query (Some s) (Some ps)) =
     filter (\<lambda>kv. fst kv \<noteq> ''suite_id'') ps"
  by (simp only: get_sections_def get_sections_query_Some dict_set_get_same dict_set_others)
     (simp add: dict_set_get_other)

theorem get_sections_merge_witness:
  "dict_get (get_sections_query (Some 7) (Some [(''limit'', PInt 5)])) ''suite_id'' = Some (PInt 7) \<and>
   dict_get (get_sections_query (Some 7) (Some [(''limit'', PInt 5)])) ''limit'' = Some (PInt 5) \<and>
   snd (get_sections (\<lambda>r. Inl RequestException) \<lparr>username = ''alice'', api_key = ''k1'', base_url = ''http://h/index.php?/api/v2/'',
      headers = [(''Authorization'', ''Basic YWxpY2U6azE=''),
                 (''Content-Type'', ''application/json'')]\<rparr> 1 (Some 7) (Some [(''limit'', PInt 5)])) =
     [\<lparr>verb = GET, url = ''http://h/index.php?/api/v2/get_sections/1&limit=5&suite_id=7'',
       body = None\<rparr>]"
proof -
  have n: "''limit'' \<noteq> ''suite_id''"
    by simp
  have g: "dict_get [(''limit'', PInt 5)] ''limit'' = Some (PInt 5)"
    by (simp add: dict_get_def)
  have r: "snd (get_sections (\<lambda>r. Inl RequestException) \<lparr>username = ''alice'', api_key = ''k1'', base_url = ''http://h/index.php?/api/v2/'',
      headers = [(''Authorization'', ''Basic YWxpY2U6azE=''),
                 (''Content-Type'', ''application/json'')]\<rparr> 1 (Some 7) (Some [(''limit'', PInt 5)])) =
     [\<lparr>verb = GET, url = ''http://h/index.php?/api/v2/get_sections/1&limit=5&suite_id=7'',
       body = None\<rparr>]"
    by code_simp
  note t = get_sections_merge [of "\<lambda>r. Inl RequestException"
      "\<lparr>username = ''alice'', api_key = ''k1'', base_url = ''http://h/index.php?/api/v2/'',
      headers = [(''Authorization'', ''Basic YWxpY2U6azE=''),
                 (''Content-Type'', ''application/json'')]\<rparr>"
      1 7 "[(''limit'', PInt 5)]"]
  from t n g r show ?thesis
    by (simp only: simp_thms)
qed

text \<open>
  Claim C7 as stated fails: with the suite 7 and the caller's entry \<^verbatim>\<open>suite_id\<close> 9 the
  query sent is \<^verbatim>\<open>suite_id=7\<close>.
\<close>

theorem get_sections_overwrites_counterexample:
  "dict_get [(''suite_id'', PInt 9)] ''suite_id'' = Some (PInt 9) \<and>
   get_sections_query (Some 7) (Some [(''suite_id'', PInt 9)]) = [(''suite_id'', PInt 7)] \<and>
   dict_get (get_sections_query (Some 7) (Some [(''suite_id'', PInt 9)])) ''suite_id'' \<noteq> Some (PInt 9) \<and>
   snd (get_sections (\<lambda>r. Inl RequestException) \<lparr>username = ''alice'', api_key = ''k1'', base_url = ''http://h/index.php?/api/v2/'',
      headers = [(''Authorization'', ''Basic YWxpY2U6azE=''),
                 (''Content-Type'', ''application/json'')]\<rparr> 1 (Some 7) (Some [(''suite_id'', PInt 9)])) =
     [\<lparr>verb = GET, url = ''http://h/index.php?/api/v2/get_sections/1&suite_id=7'',
       body = None\<rparr>]"
proof -
  have a: "dict_get [(''suite_id'', PInt 9)] ''suite_id'' = Some (PInt 9)"
    by code_simp
  have b: "get_sections_query (Some 7) (Some [(''suite_id'', PInt 9)]) = [(''suite_id'', PInt 7)]"
    by code_simp
  have c: "dict_get (get_sections_query (Some 7) (Some [(''suite_id'', PInt 9)])) ''suite_id'' \<noteq> Some (PInt 9)"
    by code_simp
  have d: "snd (get_sections (\<lambda>r. Inl RequestException) \<lparr>username = ''alice'', api_key = ''k1'', base_url = ''http://h/index.php?/api/v2/'',
      headers = [(''Authorization'', ''Basic YWxpY2U6azE=''),
                 (''Content-Type'', ''application/json'')]\<rparr> 1 (Some 7) (Some [(''suite_id'', PInt 9)])) =
     [\<lparr>verb = GET, url = ''http://h/index.php?/api/v2/get_sections/1&suite_id=7'',
       body = None\<rparr>]"
    by code_simp
  from a b c d show ?thesis
    by (simp only: simp_thms)
qed

end
